theory Spec2Isabelle
  imports Main "HOL-Library.Word"
begin

unbundle bit_operations_syntax

section \<open>Data model of the FRAM driver (FRAM.h, FRAM.c)\<close>

type_synonym u8 = "8 word"
type_synonym u32 = "32 word"

text \<open>\<^verbatim>\<open>typedef enum {FRAM_WAIT, FRAM_DONT_WAIT} FRAM_wait_t;\<close>\<close>

datatype FRAM_wait_t = FRAM_WAIT | FRAM_DONT_WAIT

subsection \<open>Macros of FRAM.h and FRAM.c\<close>

definition FRAM_SLAVE_ADR :: u32 where
  "FRAM_SLAVE_ADR = 0x50"

definition FRAM_ADR_MAX :: u32 where
  "FRAM_ADR_MAX = 0x1ffff"

definition FRAM_INVALID_ADR :: u32 where
  "FRAM_INVALID_ADR = 0xffffffff"

definition FRAM_PARAMTER_ERROR :: u32 where
  "FRAM_PARAMTER_ERROR = 0x200"

definition FRAM_NO_ERROR :: u32 where
  "FRAM_NO_ERROR = 0"

definition FRAM_ADR_BYTES :: u32 where
  "FRAM_ADR_BYTES = 2"

definition FRAM_PS_SHIFT :: nat where
  "FRAM_PS_SHIFT = 15"

definition FRAM_MSB_SHIFT :: nat where
  "FRAM_MSB_SHIFT = 8"

definition FRAM_PS_MASK :: u32 where
  "FRAM_PS_MASK = 0x10000"

subsection \<open>The I2C component\<close>

text \<open>
  FRAM.c reaches the bus through the macros \<^verbatim>\<open>I2C_API(F)\<close>, which expand to the
  functions and constants \<^verbatim>\<open>I2C_I2CMasterWriteBuf\<close>, \<^verbatim>\<open>I2C_I2CMasterReadBuf\<close>,
  \<^verbatim>\<open>I2C_I2CMasterStatus\<close>, \<^verbatim>\<open>I2C_I2C_MODE_COMPLETE_XFER\<close>, \<^verbatim>\<open>I2C_I2C_MSTAT_WR_CMPLT\<close>,
  \<^verbatim>\<open>I2C_I2C_MSTAT_RD_CMPLT\<close> and \<^verbatim>\<open>I2C_I2C_MSTR_NO_ERROR\<close> of \<^verbatim>\<open>project.h\<close>. That header
  is generated for the board and is not part of the driver, so the component is a
  parameter of every driver function: a record of its three functions, acting on a bus
  state of an arbitrary type \<open>'b\<close>, and of its four constants.

  A buffer handed to the component is the array it points to, as a list of bytes.
\<close>

record 'b i2c =
  I2CMasterWriteBuf :: "u8 \<Rightarrow> u8 list \<Rightarrow> u32 \<Rightarrow> u32 \<Rightarrow> 'b \<Rightarrow> u32 \<times> 'b"
  I2CMasterReadBuf :: "u8 \<Rightarrow> u8 list \<Rightarrow> u32 \<Rightarrow> u32 \<Rightarrow> 'b \<Rightarrow> u32 \<times> 'b"
  I2CMasterStatus :: "'b \<Rightarrow> u32 \<times> 'b"
  I2C_MODE_COMPLETE_XFER :: u32
  I2C_MSTAT_WR_CMPLT :: u32
  I2C_MSTAT_RD_CMPLT :: u32
  I2C_MSTR_NO_ERROR :: u32

text \<open>The calls made to the component, in the order they are made.\<close>

datatype bus_call =
    MasterWriteBuf u8 "u8 list" u32 u32
  | MasterReadBuf u8 "u8 list" u32 u32
  | MasterStatus

text \<open>
  The state the driver runs in: its one static variable \<^verbatim>\<open>FRAM_current_adr\<close>, the state
  of the bus, and the log of the calls made to the component so far.
\<close>

record 'b driver =
  FRAM_current_adr :: u32
  bus :: 'b
  calls :: "bus_call list"

text \<open>\<^verbatim>\<open>static uint32_t FRAM_current_adr=FRAM_INVALID_ADR;\<close>\<close>

definition FRAM_init :: "'b \<Rightarrow> 'b driver" where
  "FRAM_init b = \<lparr>FRAM_current_adr = FRAM_INVALID_ADR, bus = b, calls = []\<rparr>"

definition I2C_I2CMasterWriteBuf ::
  "'b i2c \<Rightarrow> u8 \<Rightarrow> u8 list \<Rightarrow> u32 \<Rightarrow> u32 \<Rightarrow> 'b driver \<Rightarrow> u32 \<times> 'b driver" where
  "I2C_I2CMasterWriteBuf T slave wrData cnt mode st =
     (case I2CMasterWriteBuf T slave wrData cnt mode (bus st) of
        (r, b) \<Rightarrow> (r, st\<lparr>bus := b, calls := calls st @ [MasterWriteBuf slave wrData cnt mode]\<rparr>))"

definition I2C_I2CMasterReadBuf ::
  "'b i2c \<Rightarrow> u8 \<Rightarrow> u8 list \<Rightarrow> u32 \<Rightarrow> u32 \<Rightarrow> 'b driver \<Rightarrow> u32 \<times> 'b driver" where
  "I2C_I2CMasterReadBuf T slave rdData cnt mode st =
     (case I2CMasterReadBuf T slave rdData cnt mode (bus st) of
        (r, b) \<Rightarrow> (r, st\<lparr>bus := b, calls := calls st @ [MasterReadBuf slave rdData cnt mode]\<rparr>))"

definition I2C_I2CMasterStatus :: "'b i2c \<Rightarrow> 'b driver \<Rightarrow> u32 \<times> 'b driver" where
  "I2C_I2CMasterStatus T st =
     (case I2CMasterStatus T (bus st) of
        (s, b) \<Rightarrow> (s, st\<lparr>bus := b, calls := calls st @ [MasterStatus]\<rparr>))"

text \<open>
  The busy wait \<^verbatim>\<open>while (0u == (I2C_I2CMasterStatus() & flag)) { }\<close>. It has no bound:
  on a bus that never raises the flag it does not return, which is the value \<open>None\<close>.
\<close>

partial_function (option) busy_wait :: "'b i2c \<Rightarrow> u32 \<Rightarrow> 'b driver \<Rightarrow> 'b driver option" where
  "busy_wait T flag st =
     (case I2C_I2CMasterStatus T st of
        (s, st') \<Rightarrow> if s AND flag = 0 then busy_wait T flag st' else Some st')"

declare busy_wait.simps [code]

text \<open>\<^verbatim>\<open>if(wait==FRAM_WAIT) while (...) { }\<close>\<close>

definition wait_if :: "'b i2c \<Rightarrow> FRAM_wait_t \<Rightarrow> u32 \<Rightarrow> 'b driver \<Rightarrow> 'b driver option" where
  "wait_if T wait flag st = (if wait = FRAM_WAIT then busy_wait T flag st else Some st)"

subsection \<open>Arrays\<close>

text \<open>
  A local array or a block returned by \<^verbatim>\<open>malloc\<close> before anything is stored in it. Its
  content is indeterminate in C; the driver stores to every byte before the byte is read,
  so the bytes chosen here are never seen. \<^verbatim>\<open>malloc\<close> is taken to succeed (the driver
  does not check its result).
\<close>

definition fresh :: "nat \<Rightarrow> u8 list" where
  "fresh n = replicate n 0"

text \<open>An access outside an array is undefined behaviour in C; the model stops with a fault.\<close>

datatype fault = OutOfBounds

section \<open>The driver functions (FRAM.c)\<close>

text \<open>
  \<^verbatim>\<open>static uint32_t FRAM_prep_adr(uint32_t adr, uint8_t * const adr_ary)\<close>: the result
  code and the content of \<^verbatim>\<open>adr_ary\<close> afterwards. Each assignment truncates its 32-bit
  right-hand side to \<^verbatim>\<open>uint8_t\<close>.
\<close>

definition FRAM_prep_adr :: "u32 \<Rightarrow> u8 list \<Rightarrow> u32 \<times> u8 list" where
  "FRAM_prep_adr adr adr_ary =
     (if adr > FRAM_ADR_MAX then (FRAM_PARAMTER_ERROR, adr_ary)
      else (FRAM_NO_ERROR,
            adr_ary[0 := ucast (drop_bit FRAM_MSB_SHIFT adr),
                    1 := ucast adr,
                    2 := ucast (FRAM_SLAVE_ADR OR drop_bit FRAM_PS_SHIFT (adr AND FRAM_PS_MASK))]))"

text \<open>\<^verbatim>\<open>uint32_t FRAM_set_adr(uint32_t adr, FRAM_wait_t wait)\<close>\<close>

definition FRAM_set_adr ::
  "'b i2c \<Rightarrow> u32 \<Rightarrow> FRAM_wait_t \<Rightarrow> 'b driver \<Rightarrow> (u32 \<times> 'b driver) option" where
  "FRAM_set_adr T adr wait st =
     (case FRAM_prep_adr adr (fresh 3) of
        (e, adr_ary) \<Rightarrow>
          if e \<noteq> FRAM_NO_ERROR then Some (FRAM_PARAMTER_ERROR, st)
          else
            (case I2C_I2CMasterWriteBuf T (adr_ary ! 2) adr_ary FRAM_ADR_BYTES
                    (I2C_MODE_COMPLETE_XFER T) st of
               (i2c_result, st1) \<Rightarrow>
                 (case wait_if T wait (I2C_MSTAT_WR_CMPLT T) st1 of
                    None \<Rightarrow> None
                  | Some st2 \<Rightarrow>
                      Some (i2c_result,
                            if i2c_result AND I2C_MSTR_NO_ERROR T = 0
                            then st2\<lparr>FRAM_current_adr := adr\<rparr> else st2))))"

text \<open>
  \<^verbatim>\<open>uint32_t FRAM_read_current_adr(uint8_t * const buffer, uint32_t count, FRAM_wait_t wait)\<close>.
  The buffer is \<open>None\<close> for \<^verbatim>\<open>NULL\<close>. The sum and the remainder are those of \<^verbatim>\<open>uint32_t\<close>.
\<close>

definition FRAM_read_current_adr ::
  "'b i2c \<Rightarrow> u8 list option \<Rightarrow> u32 \<Rightarrow> FRAM_wait_t \<Rightarrow> 'b driver \<Rightarrow> (u32 \<times> 'b driver) option" where
  "FRAM_read_current_adr T buffer count wait st =
     (case buffer of
        None \<Rightarrow> Some (FRAM_PARAMTER_ERROR, st)
      | Some buf \<Rightarrow>
          if count = 0 then Some (FRAM_PARAMTER_ERROR, st)
          else
            (case I2C_I2CMasterReadBuf T (ucast FRAM_SLAVE_ADR) buf count
                    (I2C_MODE_COMPLETE_XFER T) st of
               (i2c_result, st1) \<Rightarrow>
                 (case wait_if T wait (I2C_MSTAT_RD_CMPLT T)
                         (if i2c_result AND I2C_MSTR_NO_ERROR T = 0
                          then st1\<lparr>FRAM_current_adr :=
                                     (FRAM_current_adr st1 + count) mod FRAM_ADR_MAX\<rparr>
                          else st1) of
                    None \<Rightarrow> None
                  | Some st3 \<Rightarrow> Some (i2c_result, st3))))"

text \<open>\<^verbatim>\<open>uint32_t FRAM_read_from_adr(uint32_t adr, uint8_t * const buffer, uint32_t count)\<close>\<close>

definition FRAM_read_from_adr ::
  "'b i2c \<Rightarrow> u32 \<Rightarrow> u8 list option \<Rightarrow> u32 \<Rightarrow> 'b driver \<Rightarrow> (u32 \<times> 'b driver) option" where
  "FRAM_read_from_adr T adr buffer count st =
     (if FRAM_current_adr st \<noteq> adr then
        (case FRAM_set_adr T adr FRAM_WAIT st of
           None \<Rightarrow> None
         | Some (i2c_result, st1) \<Rightarrow>
             if i2c_result \<noteq> I2C_MSTR_NO_ERROR T then Some (i2c_result, st1)
             else FRAM_read_current_adr T buffer count FRAM_WAIT st1)
      else FRAM_read_current_adr T buffer count FRAM_WAIT st)"

text \<open>
  The first loop of \<^verbatim>\<open>FRAM_write_to_adr\<close>,
  \<^verbatim>\<open>for(i=0;i<FRAM_ADR_BYTES;i++) data_out[i]=adr_ary[i];\<close>, from a given \<^verbatim>\<open>i\<close>. It returns
  \<^verbatim>\<open>i\<close> as the loop leaves it, and \<^verbatim>\<open>data_out\<close>.
\<close>

function copy_adr :: "u8 list \<Rightarrow> u8 \<Rightarrow> u8 list \<Rightarrow> fault + (u8 \<times> u8 list)" where
  "copy_adr adr_ary i data_out =
     (if (ucast i :: u32) < FRAM_ADR_BYTES then
        if unat i < length adr_ary \<and> unat i < length data_out
        then copy_adr adr_ary (i + 1) (data_out[unat i := adr_ary ! unat i])
        else Inl OutOfBounds
      else Inr (i, data_out))"
  by pat_completeness auto
termination
proof (relation "measure (\<lambda>(adr_ary, i, data_out). 2 - unat i)")
  show "wf (measure (\<lambda>(adr_ary :: u8 list, i :: u8, data_out :: u8 list). 2 - unat i))"
    by simp
next
  fix adr_ary data_out :: "u8 list" and i :: u8
  assume less: "(ucast i :: u32) < FRAM_ADR_BYTES"
  have "unat i < 2 ^ 8"
    using unsigned_less [of i] by simp
  then have "unat (ucast i :: u32) = unat i"
    by (simp add: unsigned_ucast_eq take_bit_nat_eq_self)
  with less have "unat i < 2"
    by (simp add: FRAM_ADR_BYTES_def word_less_nat_alt)
  then have "unat (i + 1) = unat i + 1"
    by (simp add: unat_word_ariths)
  with \<open>unat i < 2\<close>
  show "((adr_ary, i + 1, data_out[unat i := adr_ary ! unat i]), (adr_ary, i, data_out))
          \<in> measure (\<lambda>(adr_ary, i, data_out). 2 - unat i)"
    by simp
qed

declare copy_adr.simps [simp del]

text \<open>
  The second loop, \<^verbatim>\<open>for(j=0;i<FRAM_ADR_BYTES+count;i++,j++) data_out[i]=buffer[j];\<close>.
  \<^verbatim>\<open>i\<close> and \<^verbatim>\<open>j\<close> are \<^verbatim>\<open>uint8_t\<close> and wrap at 256; the bound is computed in \<^verbatim>\<open>uint32_t\<close>
  and \<^verbatim>\<open>i\<close> is converted to it for the comparison. The loop need not end.
\<close>

partial_function (option) copy_payload ::
  "u32 \<Rightarrow> u8 list \<Rightarrow> u8 \<Rightarrow> u8 \<Rightarrow> u8 list \<Rightarrow> (fault + u8 list) option" where
  "copy_payload count buffer i j data_out =
     (if (ucast i :: u32) < FRAM_ADR_BYTES + count then
        if unat j < length buffer \<and> unat i < length data_out
        then copy_payload count buffer (i + 1) (j + 1) (data_out[unat i := buffer ! unat j])
        else Some (Inl OutOfBounds)
      else Some (Inr data_out))"

declare copy_payload.simps [code]

text \<open>
  \<^verbatim>\<open>uint32_t FRAM_write_to_adr(uint32_t adr, uint8_t * const buffer, uint32_t count)\<close>.
  The size passed to \<^verbatim>\<open>malloc\<close> is \<^verbatim>\<open>count+FRAM_ADR_BYTES\<close> in \<^verbatim>\<open>uint32_t\<close>.
\<close>

definition FRAM_write_to_adr ::
  "'b i2c \<Rightarrow> u32 \<Rightarrow> u8 list option \<Rightarrow> u32 \<Rightarrow> 'b driver \<Rightarrow> (fault + u32 \<times> 'b driver) option" where
  "FRAM_write_to_adr T adr buffer count st =
     (case buffer of
        None \<Rightarrow> Some (Inr (FRAM_PARAMTER_ERROR, st))
      | Some buf \<Rightarrow>
          if count = 0 then Some (Inr (FRAM_PARAMTER_ERROR, st))
          else
            (case FRAM_prep_adr adr (fresh 3) of
               (e, adr_ary) \<Rightarrow>
                 if e \<noteq> FRAM_NO_ERROR then Some (Inr (FRAM_PARAMTER_ERROR, st))
                 else
                   (case copy_adr adr_ary 0 (fresh (unat (count + FRAM_ADR_BYTES))) of
                      Inl f \<Rightarrow> Some (Inl f)
                    | Inr (i, data_out1) \<Rightarrow>
                        (case copy_payload count buf i 0 data_out1 of
                           None \<Rightarrow> None
                         | Some (Inl f) \<Rightarrow> Some (Inl f)
                         | Some (Inr data_out) \<Rightarrow>
                             (case I2C_I2CMasterWriteBuf T (adr_ary ! 2) data_out
                                     (FRAM_ADR_BYTES + count) (I2C_MODE_COMPLETE_XFER T) st of
                                (i2c_result, st1) \<Rightarrow>
                                  (case busy_wait T (I2C_MSTAT_WR_CMPLT T) st1 of
                                     None \<Rightarrow> None
                                   | Some st2 \<Rightarrow>
                                       Some (Inr (i2c_result,
                                                  if i2c_result AND I2C_MSTR_NO_ERROR T = 0
                                                  then st2\<lparr>FRAM_current_adr := adr + count\<rparr>
                                                  else st2))))))))"

text \<open>
  A component for running the driver on concrete inputs: every transfer is accepted with
  the result code \<open>r\<close>, the status register always shows both completion flags, and the
  no-error mask is \<open>m\<close>.
\<close>

definition stub_i2c :: "u32 \<Rightarrow> u32 \<Rightarrow> unit i2c" where
  "stub_i2c r m =
     \<lparr>I2CMasterWriteBuf = (\<lambda>slave wrData cnt mode b. (r, b)),
      I2CMasterReadBuf = (\<lambda>slave rdData cnt mode b. (r, b)),
      I2CMasterStatus = (\<lambda>b. (3, b)),
      I2C_MODE_COMPLETE_XFER = 0,
      I2C_MSTAT_WR_CMPLT = 2,
      I2C_MSTAT_RD_CMPLT = 1,
      I2C_MSTR_NO_ERROR = m\<rparr>"

text \<open>The write transfers in a log.\<close>

fun is_write :: "bus_call \<Rightarrow> bool" where
  "is_write (MasterWriteBuf slave wrData cnt mode) = True"
| "is_write (MasterReadBuf slave rdData cnt mode) = False"
| "is_write MasterStatus = False"

definition write_transfers :: "bus_call list \<Rightarrow> bus_call list" where
  "write_transfers cs = filter is_write cs"

section \<open>The address codec\<close>

lemma unat_ucast_u8: "unat (ucast (w :: u32) :: u8) = unat w mod 256"
  by (simp add: unsigned_ucast_eq take_bit_eq_mod)

lemma and_exp_cases: "(a :: 'a::len word) AND 2 ^ n = (if bit a n then 2 ^ n else 0)"
  by (rule bit_eqI) (auto simp: bit_and_iff bit_exp_iff)

lemma page_select_cases:
  "drop_bit FRAM_PS_SHIFT (adr AND FRAM_PS_MASK) = (if bit adr 16 then 2 else 0)"
proof -
  have "adr AND FRAM_PS_MASK = (if bit adr 16 then 2 ^ 16 else 0)"
    using and_exp_cases [of adr 16] by (simp add: FRAM_PS_MASK_def)
  then have "drop_bit FRAM_PS_SHIFT (adr AND FRAM_PS_MASK)
      = drop_bit 15 (if bit adr 16 then 2 ^ 16 else 0 :: u32)"
    by (simp only: FRAM_PS_SHIFT_def)
  also have "\<dots> = (if bit adr 16 then 2 else 0)"
    by simp
  finally show ?thesis .
qed

lemma FRAM_prep_adr_valid:
  "adr \<le> FRAM_ADR_MAX \<Longrightarrow>
   FRAM_prep_adr adr adr_ary =
     (FRAM_NO_ERROR,
      adr_ary[0 := ucast (drop_bit 8 adr), 1 := ucast adr,
              2 := ucast (FRAM_SLAVE_ADR OR (if bit adr 16 then 2 else 0))])"
  by (simp only: FRAM_prep_adr_def page_select_cases)
    (simp add: FRAM_MSB_SHIFT_def not_less [symmetric])

lemma FRAM_prep_adr_invalid:
  "adr > FRAM_ADR_MAX \<Longrightarrow> FRAM_prep_adr adr adr_ary = (FRAM_PARAMTER_ERROR, adr_ary)"
  by (simp add: FRAM_prep_adr_def)

text \<open>
  Claim C8. For every address up to \<^verbatim>\<open>FRAM_ADR_MAX\<close>, \<^verbatim>\<open>FRAM_prep_adr\<close> succeeds and
  stores, in a three-byte array, as byte 0 the address shifted right by 8 and cut to 8
  bits, and as byte 1 the low 8 bits of the address: together the big-endian form of the
  address cut to 16 bits. For every larger address it returns the parameter error (and
  leaves the array as it was).
\<close>

theorem FRAM_prep_adr_high_low:
  "length adr_ary = 3 \<Longrightarrow>
   (if adr \<le> FRAM_ADR_MAX
    then fst (FRAM_prep_adr adr adr_ary) = FRAM_NO_ERROR \<and>
         unat (snd (FRAM_prep_adr adr adr_ary) ! 0) = (unat adr div 2 ^ 8) mod 2 ^ 8 \<and>
         unat (snd (FRAM_prep_adr adr adr_ary) ! 1) = unat adr mod 2 ^ 8 \<and>
         2 ^ 8 * unat (snd (FRAM_prep_adr adr adr_ary) ! 0)
           + unat (snd (FRAM_prep_adr adr adr_ary) ! 1) = unat adr mod 2 ^ 16
    else fst (FRAM_prep_adr adr adr_ary) = FRAM_PARAMTER_ERROR \<and>
         snd (FRAM_prep_adr adr adr_ary) = adr_ary)"
proof (cases "adr \<le> FRAM_ADR_MAX")
  case True
  assume len: "length adr_ary = 3"
  have hi: "unat (ucast (drop_bit 8 adr) :: u8) = (unat adr div 2 ^ 8) mod 2 ^ 8"
    by (simp add: unat_ucast_u8 unat_drop_bit_eq drop_bit_eq_div unat_div)
  have lo: "unat (ucast adr :: u8) = unat adr mod 2 ^ 8"
    by (simp add: unat_ucast_u8)
  have be: "2 ^ 8 * ((unat adr div 2 ^ 8) mod 2 ^ 8) + unat adr mod 2 ^ 8 = unat adr mod 2 ^ 16"
    using mod_mult2_eq [of "unat adr" 256 256] by simp
  show ?thesis
    using True len hi lo be by (simp add: FRAM_prep_adr_valid)
next
  case False
  then have "FRAM_prep_adr adr adr_ary = (FRAM_PARAMTER_ERROR, adr_ary)"
    by (simp add: FRAM_prep_adr_invalid not_le)
  with False show ?thesis
    by simp
qed

theorem FRAM_prep_adr_high_low_witness:
  "length (fresh 3) = 3 \<and>
   fst (FRAM_prep_adr 0x12345 (fresh 3)) = FRAM_NO_ERROR \<and>
   unat (snd (FRAM_prep_adr 0x12345 (fresh 3)) ! 0) = 0x23 \<and>
   unat (snd (FRAM_prep_adr 0x12345 (fresh 3)) ! 1) = 0x45 \<and>
   fst (FRAM_prep_adr 0x20000 (fresh 3)) = FRAM_PARAMTER_ERROR"
  using FRAM_prep_adr_high_low [of "fresh 3" "0x12345"]
    FRAM_prep_adr_high_low [of "fresh 3" "0x20000"]
  by (simp add: fresh_def FRAM_ADR_MAX_def)

text \<open>
  Claim C2 says that the byte passed as the bus address is the base address with bit 16 of
  the address in its least-significant bit. \<^verbatim>\<open>FRAM_prep_adr\<close> sets out to do that (``modify
  slave adr to include the Page Select (PS) bit'', with \<^verbatim>\<open>FRAM_SLAVE_ADR\<close> the 7-bit address
  \<open>0x50\<close>), but \<^verbatim>\<open>FRAM_PS_MASK\<close> selects bit 16 and \<^verbatim>\<open>FRAM_PS_SHIFT\<close> moves it down by 15
  places, one short of the least-significant bit. At the address \<open>0x10000\<close> the byte is
  \<open>0x52\<close>, where the claim has \<open>0x50 OR 1\<close>.
\<close>

theorem FRAM_prep_adr_bus_byte_not_lsb:
  "snd (FRAM_prep_adr 0x10000 (fresh 3)) ! 2 \<noteq> ucast FRAM_SLAVE_ADR OR 1"
  by (simp add: FRAM_prep_adr_valid FRAM_ADR_MAX_def fresh_def FRAM_SLAVE_ADR_def)

text \<open>
  The same at every address up to \<^verbatim>\<open>FRAM_ADR_MAX\<close>: what the code stores is
  \<^verbatim>\<open>FRAM_SLAVE_ADR | 2\<close> when bit 16 of the address is set, and \<^verbatim>\<open>FRAM_SLAVE_ADR\<close> otherwise.
\<close>

lemma FRAM_prep_adr_bus_byte:
  "length adr_ary = 3 \<Longrightarrow> adr \<le> FRAM_ADR_MAX \<Longrightarrow>
   snd (FRAM_prep_adr adr adr_ary) ! 2 =
     (if bit adr 16 then ucast FRAM_SLAVE_ADR OR 2 else ucast FRAM_SLAVE_ADR)"
  by (simp add: FRAM_prep_adr_valid FRAM_SLAVE_ADR_def)

text \<open>
  Claim C7, as the spec states it: the bus-address bytes for \<open>0x8000\<close> and for \<open>0x0000\<close>
  differ in the page-select bit. They do not differ in any bit.
\<close>

theorem FRAM_prep_adr_0x8000_same_bus_byte:
  "snd (FRAM_prep_adr 0x8000 (fresh 3)) ! 2 XOR snd (FRAM_prep_adr 0 (fresh 3)) ! 2 = 0"
  by (simp add: FRAM_prep_adr_valid FRAM_ADR_MAX_def fresh_def)

text \<open>
  Claim C7, amended. \<open>0x8000\<close> has no bit in common with \<^verbatim>\<open>FRAM_PS_MASK\<close> (its bit 15 is
  set, not its bit 16), so the page-select bit is not set: whatever three-byte array
  \<^verbatim>\<open>FRAM_prep_adr\<close> writes to, the bus-address byte for \<open>0x8000\<close> is the bus-address byte
  for \<open>0x0000\<close>.
\<close>

theorem FRAM_prep_adr_page_bit_scenario:
  "length adr_ary = 3 \<Longrightarrow>
   0x8000 AND FRAM_PS_MASK = 0 \<and>
   snd (FRAM_prep_adr 0x8000 adr_ary) ! 2 = snd (FRAM_prep_adr 0 adr_ary) ! 2"
  by (simp add: FRAM_prep_adr_valid FRAM_ADR_MAX_def FRAM_PS_MASK_def)

theorem FRAM_prep_adr_page_bit_scenario_witness:
  "length (fresh 3) = 3 \<and>
   snd (FRAM_prep_adr 0x8000 (fresh 3)) ! 2 = 0x50 \<and>
   snd (FRAM_prep_adr 0 (fresh 3)) ! 2 = 0x50"
  using FRAM_prep_adr_page_bit_scenario [of "fresh 3"]
  by (simp add: FRAM_prep_adr_valid FRAM_ADR_MAX_def fresh_def FRAM_SLAVE_ADR_def)

section \<open>The address latch as the driver tracks it\<close>


lemma I2C_I2CMasterStatus_effect:
  "I2C_I2CMasterStatus T st = (s, st') \<Longrightarrow>
   FRAM_current_adr st' = FRAM_current_adr st \<and> calls st' = calls st @ [MasterStatus]"
  by (auto simp: I2C_I2CMasterStatus_def split: prod.splits)

lemma I2C_I2CMasterWriteBuf_effect:
  "I2C_I2CMasterWriteBuf T slave wrData cnt mode st = (s, st') \<Longrightarrow>
   FRAM_current_adr st' = FRAM_current_adr st \<and>
   calls st' = calls st @ [MasterWriteBuf slave wrData cnt mode]"
  by (auto simp: I2C_I2CMasterWriteBuf_def split: prod.splits)

lemma I2C_I2CMasterReadBuf_effect:
  "I2C_I2CMasterReadBuf T slave rdData cnt mode st = (s, st') \<Longrightarrow>
   FRAM_current_adr st' = FRAM_current_adr st \<and>
   calls st' = calls st @ [MasterReadBuf slave rdData cnt mode]"
  by (auto simp: I2C_I2CMasterReadBuf_def split: prod.splits)

lemma busy_wait_effect:
  "busy_wait T flag st = Some st' \<Longrightarrow>
   FRAM_current_adr st' = FRAM_current_adr st \<and>
   (\<exists>k. calls st' = calls st @ replicate k MasterStatus)"
proof (induction T flag st st' rule: busy_wait.raw_induct [rotated 1, consumes 1, case_names step])
  case (step bw T flag st st')
  note 1 = this
  obtain s st1 where poll: "I2C_I2CMasterStatus T st = (s, st1)"
    by (cases "I2C_I2CMasterStatus T st")
  note eff = I2C_I2CMasterStatus_effect [OF poll]
  show ?case
  proof (cases "s AND flag = 0")
    case True
    with 1(2) poll have "bw T flag st1 = Some st'"
      by simp
    from 1(1) [OF this] obtain k where
      "FRAM_current_adr st' = FRAM_current_adr st1" "calls st' = calls st1 @ replicate k MasterStatus"
      by (elim conjE exE)
    with eff have "FRAM_current_adr st' = FRAM_current_adr st"
      "calls st' = calls st @ replicate (Suc k) MasterStatus"
      by simp_all
    then show ?thesis by blast
  next
    case False
    with 1(2) poll have "st' = st1" by simp
    with eff have "FRAM_current_adr st' = FRAM_current_adr st"
      "calls st' = calls st @ replicate 1 MasterStatus"
      by simp_all
    then show ?thesis by blast
  qed
qed

lemma wait_if_effect:
  "wait_if T wait flag st = Some st' \<Longrightarrow>
   FRAM_current_adr st' = FRAM_current_adr st \<and>
   (\<exists>k. calls st' = calls st @ replicate k MasterStatus)"
proof (cases wait)
  case FRAM_WAIT
  assume "wait_if T wait flag st = Some st'"
  with FRAM_WAIT show ?thesis by (simp add: wait_if_def busy_wait_effect)
next
  case FRAM_DONT_WAIT
  assume "wait_if T wait flag st = Some st'"
  with FRAM_DONT_WAIT have "st' = st" by (simp add: wait_if_def)
  then have "calls st' = calls st @ replicate 0 MasterStatus" by simp
  with \<open>st' = st\<close> show ?thesis by blast
qed

lemma fresh_3: "fresh 3 = [0, 0, 0]"
  by (simp add: fresh_def numeral_3_eq_3)

lemma stub_i2c_consts [simp]:
  "I2C_MODE_COMPLETE_XFER (stub_i2c r m) = 0"
  "I2C_MSTAT_WR_CMPLT (stub_i2c r m) = 2"
  "I2C_MSTAT_RD_CMPLT (stub_i2c r m) = 1"
  "I2C_MSTR_NO_ERROR (stub_i2c r m) = m"
  by (simp_all add: stub_i2c_def)

lemma stub_i2c_funs [simp]:
  "I2CMasterWriteBuf (stub_i2c r m) slave wrData cnt mode b = (r, b)"
  "I2CMasterReadBuf (stub_i2c r m) slave rdData cnt mode b = (r, b)"
  "I2CMasterStatus (stub_i2c r m) b = (3, b)"
  by (simp_all add: stub_i2c_def)

lemma busy_wait_stub:
  "flag AND 3 \<noteq> 0 \<Longrightarrow>
   busy_wait (stub_i2c r m) flag st = Some (st\<lparr>bus := (), calls := calls st @ [MasterStatus]\<rparr>)"
  by (subst busy_wait.simps) (simp add: I2C_I2CMasterStatus_def stub_i2c_def and.commute)

lemma write_transfers_append [simp]:
  "write_transfers (xs @ ys) = write_transfers xs @ write_transfers ys"
  by (simp add: write_transfers_def)

lemma write_transfers_status [simp]: "write_transfers (replicate k MasterStatus) = []"
  by (simp add: write_transfers_def)

lemma write_transfers_simps [simp]:
  "write_transfers [] = []"
  "write_transfers (MasterWriteBuf slave d cnt mode # cs) =
     MasterWriteBuf slave d cnt mode # write_transfers cs"
  "write_transfers (MasterReadBuf slave d cnt mode # cs) = write_transfers cs"
  "write_transfers (MasterStatus # cs) = write_transfers cs"
  by (simp_all add: write_transfers_def)

lemma FRAM_set_adr_valid:
  assumes "adr \<le> FRAM_ADR_MAX"
    and "adr_ary = snd (FRAM_prep_adr adr (fresh 3))"
    and "I2C_I2CMasterWriteBuf T (adr_ary ! 2) adr_ary FRAM_ADR_BYTES
           (I2C_MODE_COMPLETE_XFER T) st = (s, st1)"
  shows "FRAM_set_adr T adr wait st =
    (case wait_if T wait (I2C_MSTAT_WR_CMPLT T) st1 of
       None \<Rightarrow> None
     | Some st2 \<Rightarrow>
         Some (s, if s AND I2C_MSTR_NO_ERROR T = 0 then st2\<lparr>FRAM_current_adr := adr\<rparr> else st2))"
proof -
  from assms(1) have "FRAM_prep_adr adr (fresh 3) = (FRAM_NO_ERROR, adr_ary)"
    using assms(2) by (simp add: FRAM_prep_adr_valid)
  with assms(3) show ?thesis
    by (simp add: FRAM_set_adr_def)
qed

text \<open>
  Claim C3. For a valid address, let \<open>s\<close> be the result code of the bus write that
  \<^verbatim>\<open>FRAM_set_adr\<close> issues, and let the wait for write completion, if one was asked for,
  come to an end. Then \<^verbatim>\<open>FRAM_set_adr\<close> returns \<open>s\<close> itself, and afterwards
  \<^verbatim>\<open>FRAM_current_adr\<close> is the address exactly when \<open>s\<close> has no bit of the no-error mask
  \<^verbatim>\<open>I2C_I2C_MSTR_NO_ERROR\<close>, and is what it was before otherwise.
\<close>

theorem FRAM_set_adr_cache:
  assumes "adr \<le> FRAM_ADR_MAX"
    and "adr_ary = snd (FRAM_prep_adr adr (fresh 3))"
    and "I2C_I2CMasterWriteBuf T (adr_ary ! 2) adr_ary FRAM_ADR_BYTES
           (I2C_MODE_COMPLETE_XFER T) st = (s, st1)"
    and "wait_if T wait (I2C_MSTAT_WR_CMPLT T) st1 = Some st2"
  shows "\<exists>st'. FRAM_set_adr T adr wait st = Some (s, st') \<and>
     FRAM_current_adr st' =
       (if s AND I2C_MSTR_NO_ERROR T = 0 then adr else FRAM_current_adr st)"
proof -
  have "FRAM_current_adr st2 = FRAM_current_adr st"
    using wait_if_effect [OF assms(4)] I2C_I2CMasterWriteBuf_effect [OF assms(3)] by simp
  then show ?thesis
    using assms(4) by (simp add: FRAM_set_adr_valid [OF assms(1-3)])
qed

theorem FRAM_set_adr_cache_witness:
  "(0x100 :: u32) \<le> FRAM_ADR_MAX \<and>
   (\<exists>st'. FRAM_set_adr (stub_i2c 0 4) 0x100 FRAM_WAIT (FRAM_init ()) = Some (0, st') \<and>
      FRAM_current_adr st' = 0x100) \<and>
   (\<exists>st'. FRAM_set_adr (stub_i2c 4 4) 0x100 FRAM_WAIT (FRAM_init ()) = Some (4, st') \<and>
      FRAM_current_adr st' = FRAM_INVALID_ADR)"
proof -
  have valid: "(0x100 :: u32) \<le> FRAM_ADR_MAX"
    by (simp add: FRAM_ADR_MAX_def)
  have xfer: "I2C_I2CMasterWriteBuf (stub_i2c r 4) (snd (FRAM_prep_adr 0x100 (fresh 3)) ! 2)
      (snd (FRAM_prep_adr 0x100 (fresh 3))) FRAM_ADR_BYTES
      (I2C_MODE_COMPLETE_XFER (stub_i2c r 4)) (FRAM_init ()) =
      (r, (FRAM_init ())\<lparr>bus := (), calls := [MasterWriteBuf 0x50 [1, 0, 0x50] 2 0]\<rparr>)" for r
    by (simp add: I2C_I2CMasterWriteBuf_def stub_i2c_def FRAM_init_def FRAM_prep_adr_valid
        valid fresh_3 FRAM_SLAVE_ADR_def FRAM_ADR_BYTES_def)
  have wait: "wait_if (stub_i2c r 4) FRAM_WAIT (I2C_MSTAT_WR_CMPLT (stub_i2c r 4)) st =
      Some (st\<lparr>bus := (), calls := calls st @ [MasterStatus]\<rparr>)" for r st
    by (simp add: wait_if_def busy_wait_stub)
  show ?thesis
    using valid FRAM_set_adr_cache [OF valid refl xfer [of 0] wait]
      FRAM_set_adr_cache [OF valid refl xfer [of 4] wait]
    by (simp add: stub_i2c_def FRAM_init_def)
qed

lemma FRAM_read_current_adr_result:
  assumes "count \<noteq> 0"
    and "I2C_I2CMasterReadBuf T (ucast FRAM_SLAVE_ADR) buf count (I2C_MODE_COMPLETE_XFER T) st
           = (s, st1)"
  shows "FRAM_read_current_adr T (Some buf) count wait st =
    (case wait_if T wait (I2C_MSTAT_RD_CMPLT T)
            (if s AND I2C_MSTR_NO_ERROR T = 0
             then st1\<lparr>FRAM_current_adr := (FRAM_current_adr st + count) mod FRAM_ADR_MAX\<rparr>
             else st1) of
       None \<Rightarrow> None
     | Some st3 \<Rightarrow> Some (s, st3))"
  using assms I2C_I2CMasterReadBuf_effect [OF assms(2)]
  by (simp add: FRAM_read_current_adr_def)

lemma sentinel_plus: "count \<noteq> 0 \<Longrightarrow> unat (FRAM_INVALID_ADR + count) = unat count - 1"
proof -
  assume "count \<noteq> 0"
  then have "unat (count - 1) = unat count - 1"
    by (rule unat_minus_one)
  moreover have "FRAM_INVALID_ADR + count = count - 1"
    by (simp add: FRAM_INVALID_ADR_def)
  ultimately show ?thesis
    by (simp only:)
qed

text \<open>
  Claim C10. \<^verbatim>\<open>FRAM_read_current_adr\<close> with a buffer and a count of at least 1, called
  while \<^verbatim>\<open>FRAM_current_adr\<close> is \<^verbatim>\<open>FRAM_INVALID_ADR\<close> and with the transfer accepted, sets
  \<^verbatim>\<open>FRAM_current_adr\<close> to \<^verbatim>\<open>(0xffffffff + count) % 0x1ffff\<close>, the sum being that of
  \<^verbatim>\<open>uint32_t\<close> as in the source (so the value is \<open>(count - 1) mod 0x1ffff\<close>): an address
  below \<^verbatim>\<open>FRAM_ADR_MAX\<close>, and no longer \<^verbatim>\<open>FRAM_INVALID_ADR\<close>.
\<close>

theorem FRAM_read_current_adr_from_invalid:
  assumes "count \<noteq> 0"
    and "FRAM_current_adr st = FRAM_INVALID_ADR"
    and "I2C_I2CMasterReadBuf T (ucast FRAM_SLAVE_ADR) buf count (I2C_MODE_COMPLETE_XFER T) st
           = (s, st1)"
    and "s AND I2C_MSTR_NO_ERROR T = 0"
    and "wait_if T wait (I2C_MSTAT_RD_CMPLT T)
           (st1\<lparr>FRAM_current_adr := (FRAM_INVALID_ADR + count) mod FRAM_ADR_MAX\<rparr>) = Some st3"
  shows "\<exists>st'. FRAM_read_current_adr T (Some buf) count wait st = Some (s, st') \<and>
     FRAM_current_adr st' = (FRAM_INVALID_ADR + count) mod FRAM_ADR_MAX \<and>
     unat (FRAM_current_adr st') = (unat count - 1) mod 0x1ffff \<and>
     FRAM_current_adr st' < FRAM_ADR_MAX \<and>
     FRAM_current_adr st' \<noteq> FRAM_INVALID_ADR"
proof -
  have ret: "FRAM_read_current_adr T (Some buf) count wait st = Some (s, st3)"
    using assms(2,4,5) by (simp add: FRAM_read_current_adr_result [OF assms(1,3)])
  have cache: "FRAM_current_adr st3 = (FRAM_INVALID_ADR + count) mod FRAM_ADR_MAX"
    using wait_if_effect [OF assms(5)] by simp
  have val: "unat ((FRAM_INVALID_ADR + count) mod FRAM_ADR_MAX) = (unat count - 1) mod 0x1ffff"
    using assms(1) by (simp add: unat_mod sentinel_plus) (simp add: FRAM_ADR_MAX_def)
  then have "unat ((FRAM_INVALID_ADR + count) mod FRAM_ADR_MAX) < 0x1ffff"
    by simp
  then have less: "(FRAM_INVALID_ADR + count) mod FRAM_ADR_MAX < FRAM_ADR_MAX"
    by (simp add: word_less_nat_alt FRAM_ADR_MAX_def)
  then have "(FRAM_INVALID_ADR + count) mod FRAM_ADR_MAX \<noteq> FRAM_INVALID_ADR"
    by (auto simp: FRAM_ADR_MAX_def FRAM_INVALID_ADR_def)
  with ret cache val less show ?thesis
    by simp
qed


theorem FRAM_read_current_adr_from_invalid_witness:
  "(5 :: u32) \<noteq> 0 \<and> FRAM_current_adr (FRAM_init ()) = FRAM_INVALID_ADR \<and>
   (\<exists>st'. FRAM_read_current_adr (stub_i2c 0 0) (Some [0, 0, 0, 0, 0]) 5 FRAM_WAIT (FRAM_init ())
            = Some (0, st') \<and>
      FRAM_current_adr st' = 4)"
proof -
  have count: "(5 :: u32) \<noteq> 0"
    by simp
  have cache: "FRAM_current_adr (FRAM_init ()) = FRAM_INVALID_ADR"
    by (simp add: FRAM_init_def)
  have xfer: "I2C_I2CMasterReadBuf (stub_i2c 0 0) (ucast FRAM_SLAVE_ADR) [0, 0, 0, 0, 0] 5
      (I2C_MODE_COMPLETE_XFER (stub_i2c 0 0)) (FRAM_init ()) =
      (0, (FRAM_init ())\<lparr>bus := (), calls := [MasterReadBuf 0x50 [0, 0, 0, 0, 0] 5 0]\<rparr>)"
    by (simp add: I2C_I2CMasterReadBuf_def stub_i2c_def FRAM_init_def FRAM_SLAVE_ADR_def)
  have accepted: "(0 :: u32) AND I2C_MSTR_NO_ERROR (stub_i2c 0 0) = 0"
    by simp
  have wait: "wait_if (stub_i2c 0 0) FRAM_WAIT (I2C_MSTAT_RD_CMPLT (stub_i2c 0 0)) st =
      Some (st\<lparr>bus := (), calls := calls st @ [MasterStatus]\<rparr>)" for st
    by (simp add: wait_if_def busy_wait_stub)
  show ?thesis
    using count cache
      FRAM_read_current_adr_from_invalid [OF count cache xfer accepted wait]
    by (auto simp: FRAM_INVALID_ADR_def FRAM_ADR_MAX_def)
qed

text \<open>
  Claim C1 says that an accepted read of \<open>n\<close> bytes moves a known \<^verbatim>\<open>FRAM_current_adr\<close> of
  \<open>a\<close> to \<open>(a + n) mod 0x20000\<close>. The driver takes the remainder by \<^verbatim>\<open>FRAM_ADR_MAX\<close>, which
  is \<open>0x1ffff\<close>: reading one byte at \<open>0x1fffe\<close> leaves \<^verbatim>\<open>FRAM_current_adr\<close> at 0, where the
  claim has \<open>0x1ffff\<close>, the highest address of the device.
\<close>

theorem FRAM_read_current_adr_wraps_at_0x1ffff:
  "FRAM_read_current_adr (stub_i2c 0 0) (Some [0]) 1 FRAM_WAIT
     \<lparr>FRAM_current_adr = 0x1fffe, bus = (), calls = []\<rparr> =
   Some (0, \<lparr>FRAM_current_adr = 0, bus = (),
             calls = [MasterReadBuf 0x50 [0] 1 0, MasterStatus]\<rparr>)"
  by (simp add: FRAM_read_current_adr_def I2C_I2CMasterReadBuf_def wait_if_def busy_wait_stub
      FRAM_SLAVE_ADR_def FRAM_ADR_MAX_def)

lemma copy_adr_first_two:
  "2 \<le> length adr_ary \<Longrightarrow> 2 \<le> length data_out \<Longrightarrow>
   copy_adr adr_ary 0 data_out = Inr (2, data_out[0 := adr_ary ! 0, 1 := adr_ary ! 1])"
  by (auto simp: copy_adr.simps FRAM_ADR_BYTES_def)

text \<open>
  Claim C4 says that \<^verbatim>\<open>FRAM_current_adr\<close> is always \<^verbatim>\<open>FRAM_INVALID_ADR\<close> or at most
  \<^verbatim>\<open>FRAM_ADR_MAX\<close>. \<^verbatim>\<open>FRAM_write_to_adr\<close> stores \<^verbatim>\<open>adr+count\<close> without the remainder that
  \<^verbatim>\<open>FRAM_read_current_adr\<close> takes: from the initial state, writing one byte to the last
  cell \<open>0x1ffff\<close> leaves \<^verbatim>\<open>FRAM_current_adr\<close> at \<open>0x20000\<close>.
\<close>

theorem FRAM_write_to_adr_last_cell:
  "FRAM_write_to_adr (stub_i2c 0 0) 0x1ffff (Some [0xAA]) 1 (FRAM_init ()) =
     Some (Inr (0, \<lparr>FRAM_current_adr = 0x20000, bus = (),
                    calls = [MasterWriteBuf 0x52 [0xFF, 0xFF, 0xAA] 3 0, MasterStatus]\<rparr>)) \<and>
   (0x20000 :: u32) > FRAM_ADR_MAX \<and> (0x20000 :: u32) \<noteq> FRAM_INVALID_ADR"
  by (simp add: FRAM_write_to_adr_def FRAM_prep_adr_valid fresh_3 FRAM_ADR_MAX_def
      FRAM_ADR_BYTES_def FRAM_SLAVE_ADR_def FRAM_INVALID_ADR_def FRAM_init_def FRAM_NO_ERROR_def
      copy_adr_first_two copy_payload.simps I2C_I2CMasterWriteBuf_def busy_wait_stub)

text \<open>
  Claim C6 says that \<^verbatim>\<open>FRAM_read_from_adr(0x20000, buffer, 4)\<close> returns the parameter error
  without any call to the I2C component, whatever \<^verbatim>\<open>FRAM_current_adr\<close> is. When
  \<^verbatim>\<open>FRAM_current_adr\<close> is \<open>0x20000\<close> itself (as it is after one byte was written to the
  last cell) the address is never checked: the read transfer is issued and its result
  code returned.
\<close>

theorem FRAM_read_from_adr_0x20000_cached:
  "FRAM_read_from_adr (stub_i2c 0 0) 0x20000 (Some [0, 0, 0, 0]) 4
     \<lparr>FRAM_current_adr = 0x20000, bus = (), calls = []\<rparr> =
   Some (0, \<lparr>FRAM_current_adr = 5, bus = (),
             calls = [MasterReadBuf 0x50 [0, 0, 0, 0] 4 0, MasterStatus]\<rparr>)"
  by (simp add: FRAM_read_from_adr_def FRAM_read_current_adr_def I2C_I2CMasterReadBuf_def
      wait_if_def busy_wait_stub FRAM_SLAVE_ADR_def FRAM_ADR_MAX_def)

section \<open>Transfers issued\<close>


lemma FRAM_set_adr_calls:
  assumes "adr \<le> FRAM_ADR_MAX"
    and "adr_ary = snd (FRAM_prep_adr adr (fresh 3))"
    and "FRAM_set_adr T adr wait st = Some (r, st')"
  shows "\<exists>k. calls st' = calls st @
      MasterWriteBuf (adr_ary ! 2) adr_ary FRAM_ADR_BYTES (I2C_MODE_COMPLETE_XFER T) #
      replicate k MasterStatus"
proof -
  obtain s st1 where xfer:
    "I2C_I2CMasterWriteBuf T (adr_ary ! 2) adr_ary FRAM_ADR_BYTES (I2C_MODE_COMPLETE_XFER T) st
       = (s, st1)"
    by (cases "I2C_I2CMasterWriteBuf T (adr_ary ! 2) adr_ary FRAM_ADR_BYTES
                 (I2C_MODE_COMPLETE_XFER T) st")
  from assms(3) obtain st2 where
    wait: "wait_if T wait (I2C_MSTAT_WR_CMPLT T) st1 = Some st2" and
    "calls st' = calls st2"
    by (auto simp: FRAM_set_adr_valid [OF assms(1,2) xfer] split: option.splits if_splits)
  with wait_if_effect [OF wait] I2C_I2CMasterWriteBuf_effect [OF xfer]
  show ?thesis by auto
qed

lemma FRAM_read_current_adr_calls:
  assumes "count \<noteq> 0"
    and "FRAM_read_current_adr T (Some buf) count wait st = Some (r, st')"
  shows "\<exists>k. calls st' = calls st @
      MasterReadBuf (ucast FRAM_SLAVE_ADR) buf count (I2C_MODE_COMPLETE_XFER T) #
      replicate k MasterStatus"
proof -
  obtain s st1 where xfer:
    "I2C_I2CMasterReadBuf T (ucast FRAM_SLAVE_ADR) buf count (I2C_MODE_COMPLETE_XFER T) st
       = (s, st1)"
    by (cases "I2C_I2CMasterReadBuf T (ucast FRAM_SLAVE_ADR) buf count
                 (I2C_MODE_COMPLETE_XFER T) st")
  let ?st2 = "if s AND I2C_MSTR_NO_ERROR T = 0
     then st1\<lparr>FRAM_current_adr := (FRAM_current_adr st + count) mod FRAM_ADR_MAX\<rparr> else st1"
  from assms(2) have wait: "wait_if T wait (I2C_MSTAT_RD_CMPLT T) ?st2 = Some st'"
    by (auto simp: FRAM_read_current_adr_result [OF assms(1) xfer] split: option.splits if_splits)
  have "calls ?st2 = calls st1"
    by simp
  with wait_if_effect [OF wait] I2C_I2CMasterReadBuf_effect [OF xfer]
  show ?thesis by auto
qed

text \<open>The write transfers in the log of a call of \<^verbatim>\<open>FRAM_read_from_adr\<close> that has returned.\<close>

lemma FRAM_read_from_adr_write_transfers:
  assumes "adr \<le> FRAM_ADR_MAX"
    and "count \<noteq> 0"
    and "adr_ary = snd (FRAM_prep_adr adr (fresh 3))"
    and "FRAM_read_from_adr T adr (Some buf) count st = Some (r, st')"
  shows "write_transfers (calls st') =
    write_transfers (calls st) @
    (if FRAM_current_adr st = adr then []
     else [MasterWriteBuf (adr_ary ! 2) adr_ary FRAM_ADR_BYTES (I2C_MODE_COMPLETE_XFER T)])"
proof (cases "FRAM_current_adr st = adr")
  case True
  with assms(4) have "FRAM_read_current_adr T (Some buf) count FRAM_WAIT st = Some (r, st')"
    by (simp add: FRAM_read_from_adr_def)
  from FRAM_read_current_adr_calls [OF assms(2) this] True show ?thesis
    by auto
next
  case False
  with assms(4) obtain r1 st1 where
    set: "FRAM_set_adr T adr FRAM_WAIT st = Some (r1, st1)" and
    rest: "(if r1 \<noteq> I2C_MSTR_NO_ERROR T then Some (r1, st1)
            else FRAM_read_current_adr T (Some buf) count FRAM_WAIT st1) = Some (r, st')"
    by (auto simp: FRAM_read_from_adr_def split: option.splits)
  from FRAM_set_adr_calls [OF assms(1,3) set] obtain k where
    first: "calls st1 = calls st @
      MasterWriteBuf (adr_ary ! 2) adr_ary FRAM_ADR_BYTES (I2C_MODE_COMPLETE_XFER T) #
      replicate k MasterStatus"
    by blast
  show ?thesis
  proof (cases "r1 \<noteq> I2C_MSTR_NO_ERROR T")
    case True
    with rest have "st' = st1" by simp
    with first False show ?thesis by simp
  next
    case no_error: False
    with rest have "FRAM_read_current_adr T (Some buf) count FRAM_WAIT st1 = Some (r, st')"
      by simp
    from FRAM_read_current_adr_calls [OF assms(2) this] first False show ?thesis
      by auto
  qed
qed

lemma FRAM_read_from_adr_stub_unknown:
  "FRAM_read_from_adr (stub_i2c 0 0) 0x100 (Some [0, 0]) 2 (FRAM_init ()) =
   Some (0, \<lparr>FRAM_current_adr = 0x102, bus = (),
             calls = [MasterWriteBuf 0x50 [1, 0, 0x50] 2 0, MasterStatus,
                      MasterReadBuf 0x50 [0, 0] 2 0, MasterStatus]\<rparr>)"
  by (simp add: FRAM_read_from_adr_def FRAM_set_adr_def FRAM_read_current_adr_def
      FRAM_prep_adr_valid fresh_3 I2C_I2CMasterWriteBuf_def I2C_I2CMasterReadBuf_def
      wait_if_def busy_wait_stub FRAM_SLAVE_ADR_def FRAM_ADR_MAX_def FRAM_init_def
      FRAM_INVALID_ADR_def FRAM_NO_ERROR_def FRAM_ADR_BYTES_def)

lemma FRAM_read_from_adr_stub_cached:
  "FRAM_read_from_adr (stub_i2c 0 0) 0x100 (Some [0, 0]) 2
     \<lparr>FRAM_current_adr = 0x100, bus = (), calls = []\<rparr> =
   Some (0, \<lparr>FRAM_current_adr = 0x102, bus = (),
             calls = [MasterReadBuf 0x50 [0, 0] 2 0, MasterStatus]\<rparr>)"
  by (simp add: FRAM_read_from_adr_def FRAM_read_current_adr_def I2C_I2CMasterReadBuf_def
      wait_if_def busy_wait_stub FRAM_SLAVE_ADR_def FRAM_ADR_MAX_def)

lemma FRAM_read_from_adr_stub_refused:
  "FRAM_read_from_adr (stub_i2c 4 0) 0x100 (Some [0, 0]) 2 (FRAM_init ()) =
   Some (4, \<lparr>FRAM_current_adr = 0x100, bus = (),
             calls = [MasterWriteBuf 0x50 [1, 0, 0x50] 2 0, MasterStatus]\<rparr>)"
  by (simp add: FRAM_read_from_adr_def FRAM_set_adr_def
      FRAM_prep_adr_valid fresh_3 I2C_I2CMasterWriteBuf_def
      wait_if_def busy_wait_stub FRAM_SLAVE_ADR_def FRAM_ADR_MAX_def FRAM_init_def
      FRAM_INVALID_ADR_def FRAM_NO_ERROR_def FRAM_ADR_BYTES_def)

text \<open>
  \<^verbatim>\<open>FRAM_read_from_adr\<close> returns on every component on which a transfer, once started, is
  reported complete: the wait for \<^verbatim>\<open>I2C_I2C_MSTAT_WR_CMPLT\<close> ends in the state a write
  transfer leaves, and the wait for \<^verbatim>\<open>I2C_I2C_MSTAT_RD_CMPLT\<close> in the state a read transfer
  leaves (whatever \<^verbatim>\<open>FRAM_current_adr\<close> has been set to meanwhile).
\<close>

lemma FRAM_read_from_adr_returns:
  assumes wr: "\<And>slave wrData cnt mode s r s1.
      I2C_I2CMasterWriteBuf T slave wrData cnt mode s = (r, s1) \<Longrightarrow>
      busy_wait T (I2C_MSTAT_WR_CMPLT T) s1 \<noteq> None"
    and rd: "\<And>slave rdData cnt mode s r s1 a.
      I2C_I2CMasterReadBuf T slave rdData cnt mode s = (r, s1) \<Longrightarrow>
      busy_wait T (I2C_MSTAT_RD_CMPLT T) (s1\<lparr>FRAM_current_adr := a\<rparr>) \<noteq> None"
  shows "FRAM_read_from_adr T adr buffer count st \<noteq> None"
proof -
  have set: "FRAM_set_adr T adr FRAM_WAIT s \<noteq> None" for s
  proof (cases "FRAM_prep_adr adr (fresh 3)")
    case (Pair e adr_ary)
    obtain r st1 where xfer:
      "I2C_I2CMasterWriteBuf T (adr_ary ! 2) adr_ary FRAM_ADR_BYTES (I2C_MODE_COMPLETE_XFER T) s
         = (r, st1)"
      by (cases "I2C_I2CMasterWriteBuf T (adr_ary ! 2) adr_ary FRAM_ADR_BYTES
                   (I2C_MODE_COMPLETE_XFER T) s")
    from wr [OF xfer] obtain st2 where "busy_wait T (I2C_MSTAT_WR_CMPLT T) st1 = Some st2"
      by auto
    with xfer show ?thesis
      using Pair by (simp add: FRAM_set_adr_def wait_if_def)
  qed
  have read: "FRAM_read_current_adr T buffer count FRAM_WAIT s \<noteq> None" for s
  proof (cases "buffer = None \<or> count = 0")
    case True
    then show ?thesis
      by (auto simp: FRAM_read_current_adr_def split: option.splits)
  next
    case False
    then obtain buf where buf: "buffer = Some buf" and count: "count \<noteq> 0"
      by auto
    obtain r st1 where xfer:
      "I2C_I2CMasterReadBuf T (ucast FRAM_SLAVE_ADR) buf count (I2C_MODE_COMPLETE_XFER T) s
         = (r, st1)"
      by (cases "I2C_I2CMasterReadBuf T (ucast FRAM_SLAVE_ADR) buf count
                   (I2C_MODE_COMPLETE_XFER T) s")
    let ?st2 = "if r AND I2C_MSTR_NO_ERROR T = 0
       then st1\<lparr>FRAM_current_adr := (FRAM_current_adr s + count) mod FRAM_ADR_MAX\<rparr>
       else st1"
    have "?st2 = st1\<lparr>FRAM_current_adr := FRAM_current_adr ?st2\<rparr>"
      by simp
    with rd [OF xfer, of "FRAM_current_adr ?st2"]
    obtain st3 where "busy_wait T (I2C_MSTAT_RD_CMPLT T) ?st2 = Some st3"
      by auto
    then show ?thesis
      by (simp add: buf FRAM_read_current_adr_result [OF count xfer] wait_if_def)
  qed
  show ?thesis
    using set [of st] read by (auto simp: FRAM_read_from_adr_def split: option.splits)
qed

text \<open>
  Claim C5. Take a component on which a transfer, once started, is reported complete (the
  two busy waits of the read path end). For a valid address, a buffer and a count of at
  least 1, \<^verbatim>\<open>FRAM_read_from_adr\<close> returns, and it has issued no write transfer when
  \<^verbatim>\<open>FRAM_current_adr\<close> was exactly the address, and exactly one otherwise, also when
  \<^verbatim>\<open>FRAM_current_adr\<close> was \<^verbatim>\<open>FRAM_INVALID_ADR\<close> and also when that transfer is refused: the
  transfer of the two address bytes that \<^verbatim>\<open>FRAM_set_adr\<close> makes. The test is the equality
  of the two 32-bit values and nothing else.
\<close>

theorem FRAM_read_from_adr_set_adr_transfers:
  assumes "adr \<le> FRAM_ADR_MAX"
    and "count \<noteq> 0"
    and "adr_ary = snd (FRAM_prep_adr adr (fresh 3))"
    and "\<And>slave wrData cnt mode s r s1.
      I2C_I2CMasterWriteBuf T slave wrData cnt mode s = (r, s1) \<Longrightarrow>
      busy_wait T (I2C_MSTAT_WR_CMPLT T) s1 \<noteq> None"
    and "\<And>slave rdData cnt mode s r s1 a.
      I2C_I2CMasterReadBuf T slave rdData cnt mode s = (r, s1) \<Longrightarrow>
      busy_wait T (I2C_MSTAT_RD_CMPLT T) (s1\<lparr>FRAM_current_adr := a\<rparr>) \<noteq> None"
  shows "\<exists>r st'. FRAM_read_from_adr T adr (Some buf) count st = Some (r, st') \<and>
    write_transfers (calls st') =
      write_transfers (calls st) @
      (if FRAM_current_adr st = adr then []
       else [MasterWriteBuf (adr_ary ! 2) adr_ary FRAM_ADR_BYTES (I2C_MODE_COMPLETE_XFER T)])"
proof -
  have "FRAM_read_from_adr T adr (Some buf) count st \<noteq> None"
    using assms(4,5) by (rule FRAM_read_from_adr_returns)
  then obtain r st' where run: "FRAM_read_from_adr T adr (Some buf) count st = Some (r, st')"
    by auto
  from FRAM_read_from_adr_write_transfers [OF assms(1-3) run] run show ?thesis
    by blast
qed

theorem FRAM_read_from_adr_set_adr_transfers_witness:
  "(0x100 :: u32) \<le> FRAM_ADR_MAX \<and> (2 :: u32) \<noteq> 0 \<and>
   (\<exists>r st'. FRAM_read_from_adr (stub_i2c 0 0) 0x100 (Some [0, 0]) 2 (FRAM_init ())
              = Some (r, st') \<and>
      write_transfers (calls st') = [MasterWriteBuf 0x50 [1, 0, 0x50] 2 0]) \<and>
   (\<exists>r st'. FRAM_read_from_adr (stub_i2c 0 0) 0x100 (Some [0, 0]) 2
              \<lparr>FRAM_current_adr = 0x100, bus = (), calls = []\<rparr> = Some (r, st') \<and>
      write_transfers (calls st') = []) \<and>
   (\<exists>r st'. FRAM_read_from_adr (stub_i2c 4 0) 0x100 (Some [0, 0]) 2 (FRAM_init ())
              = Some (r, st') \<and> r = 4 \<and>
      write_transfers (calls st') = [MasterWriteBuf 0x50 [1, 0, 0x50] 2 0])"
proof -
  have valid: "(0x100 :: u32) \<le> FRAM_ADR_MAX"
    by (simp add: FRAM_ADR_MAX_def)
  have count: "(2 :: u32) \<noteq> 0"
    by simp
  have ary: "snd (FRAM_prep_adr 0x100 (fresh 3)) = [1, 0, 0x50]"
    by (simp add: FRAM_prep_adr_valid valid fresh_3 FRAM_SLAVE_ADR_def)
  have wr: "busy_wait (stub_i2c r m) (I2C_MSTAT_WR_CMPLT (stub_i2c r m)) s1 \<noteq> None" for r m s1
    by (simp add: busy_wait_stub)
  have rd: "busy_wait (stub_i2c r m) (I2C_MSTAT_RD_CMPLT (stub_i2c r m))
      (s1\<lparr>FRAM_current_adr := a\<rparr>) \<noteq> None" for r m s1 a
    by (simp add: busy_wait_stub)
  show ?thesis
    using valid FRAM_read_from_adr_stub_refused
      FRAM_read_from_adr_set_adr_transfers
        [where T = "stub_i2c 0 0" and buf = "[0, 0]" and st = "FRAM_init ()",
          OF valid count refl wr rd]
      FRAM_read_from_adr_set_adr_transfers
        [where T = "stub_i2c 0 0" and buf = "[0, 0]"
          and st = "\<lparr>FRAM_current_adr = 0x100, bus = (), calls = []\<rparr>",
          OF valid count refl wr rd]
      FRAM_read_from_adr_set_adr_transfers
        [where T = "stub_i2c 4 0" and buf = "[0, 0]" and st = "FRAM_init ()",
          OF valid count refl wr rd]
    by (simp add: ary FRAM_init_def FRAM_INVALID_ADR_def FRAM_ADR_BYTES_def)
qed

lemma copy_payload_diverges:
  "copy_payload count buffer i j data_out = Some y \<Longrightarrow>
   256 \<le> unat (FRAM_ADR_BYTES + count) \<Longrightarrow> 256 \<le> length buffer \<Longrightarrow>
   256 \<le> length data_out \<Longrightarrow> False"
proof (induction count buffer i j data_out y
    rule: copy_payload.raw_induct [rotated 1, consumes 1, case_names step])
  case (step cp count buffer i j data_out y)
  have i: "unat i < 256" and j: "unat j < 256"
    using unsigned_less [of i] unsigned_less [of j] by simp_all
  then have "unat (ucast i :: u32) = unat i"
    by (simp add: unsigned_ucast_eq take_bit_nat_eq_self)
  with i step(3) have "(ucast i :: u32) < FRAM_ADR_BYTES + count"
    by (simp add: word_less_nat_alt)
  moreover from i j step(4,5) have "unat j < length buffer \<and> unat i < length data_out"
    by simp
  ultimately have "cp count buffer (i + 1) (j + 1) (data_out[unat i := buffer ! unat j]) = Some y"
    using step(2) by simp
  from step(1) [OF this step(3,4)] step(5) show ?case
    by simp
qed

text \<open>
  Claim C9 says that \<^verbatim>\<open>FRAM_write_to_adr\<close> issues exactly one write transfer of \<open>2 + n\<close>
  bytes for every count \<open>n\<close> of at least 1. The copy loop counts in \<^verbatim>\<open>uint8_t\<close> against a
  bound in \<^verbatim>\<open>uint32_t\<close>: once \<open>2 + n\<close> exceeds 255 the counter wraps to 0 before it reaches
  the bound and the loop never ends. With 256 bytes to write the call does not return, on
  any bus and from any state, and no transfer is issued.
\<close>

theorem FRAM_write_to_adr_256_bytes:
  "FRAM_write_to_adr T 0 (Some (replicate 256 0)) 256 st = None"
proof -
  have "copy_payload 256 (replicate 256 0) 2 0 ((fresh 258)[0 := a, 1 := b]) = None" for a b
  proof (cases "copy_payload 256 (replicate 256 0) 2 0 ((fresh 258)[0 := a, 1 := b])")
    case None
    then show ?thesis .
  next
    case (Some y)
    from copy_payload_diverges [OF this] show ?thesis
      by (simp add: FRAM_ADR_BYTES_def fresh_def)
  qed
  then show ?thesis
    by (simp add: FRAM_write_to_adr_def FRAM_prep_adr_valid FRAM_ADR_MAX_def fresh_3
        FRAM_NO_ERROR_def FRAM_ADR_BYTES_def copy_adr_first_two [unfolded FRAM_ADR_BYTES_def] fresh_def)
qed

section \<open>What the read path keeps and when it returns\<close>

lemma FRAM_set_adr_invalid:
  "adr > FRAM_ADR_MAX \<Longrightarrow> FRAM_set_adr T adr wait st = Some (FRAM_PARAMTER_ERROR, st)"
  by (simp add: FRAM_set_adr_def FRAM_prep_adr_invalid FRAM_PARAMTER_ERROR_def FRAM_NO_ERROR_def)

text \<open>
  An address above \<^verbatim>\<open>FRAM_ADR_MAX\<close> is refused by \<^verbatim>\<open>FRAM_read_from_adr\<close> before any call to
  the component whenever it differs from \<^verbatim>\<open>FRAM_current_adr\<close> (and the component's no-error
  code is not the driver's parameter error code).
\<close>

lemma FRAM_read_from_adr_invalid:
  "adr > FRAM_ADR_MAX \<Longrightarrow> FRAM_current_adr st \<noteq> adr \<Longrightarrow>
   I2C_MSTR_NO_ERROR T \<noteq> FRAM_PARAMTER_ERROR \<Longrightarrow>
   FRAM_read_from_adr T adr buffer count st = Some (FRAM_PARAMTER_ERROR, st)"
  by (simp add: FRAM_read_from_adr_def FRAM_set_adr_invalid)

text \<open>
  \<^verbatim>\<open>FRAM_set_adr\<close>, \<^verbatim>\<open>FRAM_read_current_adr\<close> and \<^verbatim>\<open>FRAM_read_from_adr\<close> keep
  \<^verbatim>\<open>FRAM_current_adr\<close> either \<^verbatim>\<open>FRAM_INVALID_ADR\<close> or at most \<^verbatim>\<open>FRAM_ADR_MAX\<close>.
\<close>

lemma FRAM_set_adr_range:
  assumes "FRAM_set_adr T adr wait st = Some (r, st')"
    and "FRAM_current_adr st = FRAM_INVALID_ADR \<or> FRAM_current_adr st \<le> FRAM_ADR_MAX"
  shows "FRAM_current_adr st' = FRAM_INVALID_ADR \<or> FRAM_current_adr st' \<le> FRAM_ADR_MAX"
proof (cases "adr \<le> FRAM_ADR_MAX")
  case True
  obtain s st1 where xfer:
    "I2C_I2CMasterWriteBuf T (snd (FRAM_prep_adr adr (fresh 3)) ! 2)
       (snd (FRAM_prep_adr adr (fresh 3))) FRAM_ADR_BYTES (I2C_MODE_COMPLETE_XFER T) st
       = (s, st1)"
    by (cases "I2C_I2CMasterWriteBuf T (snd (FRAM_prep_adr adr (fresh 3)) ! 2)
       (snd (FRAM_prep_adr adr (fresh 3))) FRAM_ADR_BYTES (I2C_MODE_COMPLETE_XFER T) st")
  from assms(1) obtain st2 where
    wait: "wait_if T wait (I2C_MSTAT_WR_CMPLT T) st1 = Some st2" and
    st': "st' = (if s AND I2C_MSTR_NO_ERROR T = 0 then st2\<lparr>FRAM_current_adr := adr\<rparr> else st2)"
    by (auto simp: FRAM_set_adr_valid [OF True refl xfer] split: option.splits)
  have "FRAM_current_adr st2 = FRAM_current_adr st"
    using wait_if_effect [OF wait] I2C_I2CMasterWriteBuf_effect [OF xfer] by simp
  with st' True assms(2) show ?thesis
    by auto
next
  case False
  with assms show ?thesis
    by (simp add: FRAM_set_adr_invalid not_le)
qed

lemma FRAM_read_current_adr_range:
  assumes "FRAM_read_current_adr T buffer count wait st = Some (r, st')"
    and "FRAM_current_adr st = FRAM_INVALID_ADR \<or> FRAM_current_adr st \<le> FRAM_ADR_MAX"
  shows "FRAM_current_adr st' = FRAM_INVALID_ADR \<or> FRAM_current_adr st' \<le> FRAM_ADR_MAX"
proof (cases "buffer = None \<or> count = 0")
  case True
  with assms show ?thesis
    by (auto simp: FRAM_read_current_adr_def split: option.splits)
next
  case False
  then obtain buf where buf: "buffer = Some buf" and count: "count \<noteq> 0"
    by auto
  obtain s st1 where xfer:
    "I2C_I2CMasterReadBuf T (ucast FRAM_SLAVE_ADR) buf count (I2C_MODE_COMPLETE_XFER T) st
       = (s, st1)"
    by (cases "I2C_I2CMasterReadBuf T (ucast FRAM_SLAVE_ADR) buf count
                 (I2C_MODE_COMPLETE_XFER T) st")
  let ?st2 = "if s AND I2C_MSTR_NO_ERROR T = 0
     then st1\<lparr>FRAM_current_adr := (FRAM_current_adr st + count) mod FRAM_ADR_MAX\<rparr> else st1"
  from assms(1) buf have wait: "wait_if T wait (I2C_MSTAT_RD_CMPLT T) ?st2 = Some st'"
    by (auto simp: FRAM_read_current_adr_result [OF count xfer] split: option.splits if_splits)
  have "(FRAM_current_adr st + count) mod FRAM_ADR_MAX < FRAM_ADR_MAX"
    by (rule word_mod_less_divisor) (simp add: FRAM_ADR_MAX_def)
  then have "FRAM_current_adr ?st2 = FRAM_INVALID_ADR \<or> FRAM_current_adr ?st2 \<le> FRAM_ADR_MAX"
    using assms(2) I2C_I2CMasterReadBuf_effect [OF xfer] by auto
  with wait_if_effect [OF wait] show ?thesis
    by simp
qed

lemma FRAM_read_from_adr_range:
  assumes "FRAM_read_from_adr T adr buffer count st = Some (r, st')"
    and "FRAM_current_adr st = FRAM_INVALID_ADR \<or> FRAM_current_adr st \<le> FRAM_ADR_MAX"
  shows "FRAM_current_adr st' = FRAM_INVALID_ADR \<or> FRAM_current_adr st' \<le> FRAM_ADR_MAX"
proof (cases "FRAM_current_adr st = adr")
  case True
  with assms(1) have "FRAM_read_current_adr T buffer count FRAM_WAIT st = Some (r, st')"
    by (simp add: FRAM_read_from_adr_def)
  from FRAM_read_current_adr_range [OF this assms(2)] show ?thesis .
next
  case False
  with assms(1) obtain r1 st1 where
    set: "FRAM_set_adr T adr FRAM_WAIT st = Some (r1, st1)" and
    rest: "(if r1 \<noteq> I2C_MSTR_NO_ERROR T then Some (r1, st1)
            else FRAM_read_current_adr T buffer count FRAM_WAIT st1) = Some (r, st')"
    by (auto simp: FRAM_read_from_adr_def split: option.splits)
  note mid = FRAM_set_adr_range [OF set assms(2)]
  show ?thesis
  proof (cases "r1 \<noteq> I2C_MSTR_NO_ERROR T")
    case True
    with rest mid show ?thesis by simp
  next
    case no_error: False
    with rest have "FRAM_read_current_adr T buffer count FRAM_WAIT st1 = Some (r, st')"
      by simp
    from FRAM_read_current_adr_range [OF this mid] show ?thesis .
  qed
qed

section \<open>Writes of up to 253 bytes\<close>

lemma unat_u8_of_nat: "n < 256 \<Longrightarrow> unat (of_nat n :: u8) = n"
  by (simp add: unat_of_nat)

lemma unat_ucast_u8_u32: "unat (ucast (i :: u8) :: u32) = unat i"
proof -
  have "unat i < 2 ^ 8"
    using unsigned_less [of i] by simp
  then show ?thesis
    by (simp add: unsigned_ucast_eq take_bit_nat_eq_self)
qed

lemma unat_bound_small:
  "unat count \<le> 253 \<Longrightarrow> unat (FRAM_ADR_BYTES + count) = unat count + 2"
  by (simp add: FRAM_ADR_BYTES_def unat_word_ariths)

text \<open>
  Up to 253 bytes the second copy loop ends: entered with \<open>i = k + 2\<close> and \<open>j = k\<close> it
  leaves the first \<open>k + 2\<close> bytes of \<^verbatim>\<open>data_out\<close> as they are and stores the bytes
  \<open>k, \<dots>, count - 1\<close> of the buffer behind them.
\<close>

lemma copy_payload_in_range:
  assumes "unat count \<le> 253"
    and "unat count \<le> length buffer"
    and "length data_out = unat count + 2"
    and "k \<le> unat count"
  shows "copy_payload count buffer (of_nat (k + 2)) (of_nat k) data_out =
    Some (Inr (take (k + 2) data_out @ drop k (take (unat count) buffer)))"
  using assms(3,4)
proof (induction "unat count - k" arbitrary: k data_out)
  case 0
  then have k: "k = unat count"
    by simp
  with assms(1) have "k + 2 < 256"
    by simp
  then have "unat (of_nat (k + 2) :: u8) = k + 2"
    by (rule unat_u8_of_nat)
  then have "unat (ucast (of_nat (k + 2) :: u8) :: u32) = unat (FRAM_ADR_BYTES + count)"
    using k by (simp only: unat_ucast_u8_u32 unat_bound_small [OF assms(1)])
  then have "\<not> (ucast (of_nat (k + 2) :: u8) :: u32) < FRAM_ADR_BYTES + count"
    by (simp only: word_less_nat_alt)
  then have "copy_payload count buffer (of_nat (k + 2)) (of_nat k) data_out = Some (Inr data_out)"
    by (subst copy_payload.simps) simp
  with k 0(2) show ?case
    by simp
next
  case (Suc n)
  then have k: "k < unat count"
    by simp
  with assms(1) have "k + 2 < 256" "k < 256"
    by simp_all
  then have i: "unat (of_nat (k + 2) :: u8) = k + 2" and j: "unat (of_nat k :: u8) = k"
    by (simp_all only: unat_u8_of_nat)
  from k have "unat (ucast (of_nat (k + 2) :: u8) :: u32) < unat (FRAM_ADR_BYTES + count)"
    by (simp only: unat_ucast_u8_u32 unat_bound_small [OF assms(1)] i)
  then have less: "(ucast (of_nat (k + 2) :: u8) :: u32) < FRAM_ADR_BYTES + count"
    by (simp only: word_less_nat_alt)
  from k assms(2) Suc(3) have inb: "k < length buffer" "k + 2 < length data_out"
    by simp_all
  let ?d = "data_out[k + 2 := buffer ! k]"
  have step: "copy_payload count buffer (of_nat (k + 2)) (of_nat k) data_out =
      copy_payload count buffer (of_nat (Suc k + 2)) (of_nat (Suc k)) ?d"
    using less inb i j by (subst copy_payload.simps) (simp add: add.commute)
  have "copy_payload count buffer (of_nat (Suc k + 2)) (of_nat (Suc k)) ?d =
      Some (Inr (take (Suc k + 2) ?d @ drop (Suc k) (take (unat count) buffer)))"
    using Suc(2) Suc(3) k by (intro Suc(1)) simp_all
  moreover have "take (Suc k + 2) ?d = take (k + 2) data_out @ [buffer ! k]"
    using inb(2) by (simp add: take_Suc_conv_app_nth)
  moreover have "drop k (take (unat count) buffer) = buffer ! k # drop (Suc k) (take (unat count) buffer)"
    using k assms(2) by (simp add: Cons_nth_drop_Suc [symmetric])
  ultimately show ?case
    using step by simp
qed

text \<open>
  For a valid address and a count from 1 to 253, \<^verbatim>\<open>FRAM_write_to_adr\<close> hands the component
  one array of \<open>2 + count\<close> bytes, the two address bytes followed by the first \<open>count\<close> bytes
  of the buffer, and returns the result code of that transfer once the wait for write
  completion has ended.
\<close>

lemma FRAM_write_to_adr_in_range:
  assumes "adr \<le> FRAM_ADR_MAX"
    and "count \<noteq> 0"
    and "unat count \<le> 253"
    and "unat count \<le> length buf"
    and "adr_ary = snd (FRAM_prep_adr adr (fresh 3))"
    and "I2C_I2CMasterWriteBuf T (adr_ary ! 2) (adr_ary ! 0 # adr_ary ! 1 # take (unat count) buf)
           (FRAM_ADR_BYTES + count) (I2C_MODE_COMPLETE_XFER T) st = (s, st1)"
    and "busy_wait T (I2C_MSTAT_WR_CMPLT T) st1 = Some st2"
  shows "FRAM_write_to_adr T adr (Some buf) count st =
    Some (Inr (s, if s AND I2C_MSTR_NO_ERROR T = 0
                  then st2\<lparr>FRAM_current_adr := adr + count\<rparr> else st2))"
proof -
  have prep: "FRAM_prep_adr adr (fresh 3) = (FRAM_NO_ERROR, adr_ary)"
    using assms(1,5) by (simp add: FRAM_prep_adr_valid)
  have len_ary: "length adr_ary = 3"
    using assms(1,5) by (simp add: FRAM_prep_adr_valid fresh_def)
  have size: "unat (count + FRAM_ADR_BYTES) = unat count + 2"
    using unat_bound_small [OF assms(3)] by (simp add: add.commute)
  let ?d1 = "(fresh (unat count + 2))[0 := adr_ary ! 0, 1 := adr_ary ! 1]"
  have adr: "copy_adr adr_ary 0 (fresh (unat (count + FRAM_ADR_BYTES))) = Inr (2, ?d1)"
    using len_ary by (simp only: size) (simp add: copy_adr_first_two fresh_def)
  have copied: "copy_payload count buf (of_nat (0 + 2)) (of_nat 0) ?d1 =
      Some (Inr (take (0 + 2) ?d1 @ drop 0 (take (unat count) buf)))"
    using assms(3,4) by (intro copy_payload_in_range) (simp_all add: fresh_def)
  have "take (0 + 2) ?d1 @ drop 0 (take (unat count) buf) =
      adr_ary ! 0 # adr_ary ! 1 # take (unat count) buf"
    by (simp add: fresh_def take_Suc_conv_app_nth numeral_2_eq_2)
  with copied have "copy_payload count buf (of_nat (0 + 2)) (of_nat 0) ?d1 =
      Some (Inr (adr_ary ! 0 # adr_ary ! 1 # take (unat count) buf))"
    by (simp only:)
  then have payload: "copy_payload count buf 2 0 ?d1 =
      Some (Inr (adr_ary ! 0 # adr_ary ! 1 # take (unat count) buf))"
    by simp
  show ?thesis
    using assms(2,6,7) prep adr payload by (simp add: FRAM_write_to_adr_def)
qed

lemma FRAM_write_to_adr_in_range_length:
  "unat count \<le> length buf \<Longrightarrow>
   length (hi # lo # take (unat count) buf) = 2 + unat count"
  by simp

end
